theory Spec2Isabelle
  imports Complex_Main "HOL-Library.Word"
begin

section \<open>Errors\<close>

text \<open>
  The exceptions the modelled functions can raise.  \<open>UserError\<close> is the
  repository's own exception class (analyze.py); its three uses carry the data
  their messages print.  The others are Python's built-in exceptions.
\<close>

datatype user_error =
    MissingXY string           \<comment> \<open>Filename ... missing needed xy information\<close>
  | CellCountMismatch nat nat  \<comment> \<open>Schematic does not have same number of cells (count) as images provided (target)\<close>
  | NoControlWells             \<comment> \<open>No control wells found. Please supply a --plate-control ...\<close>

datatype error =
    IndexError
  | KeyError
  | ZeroDivisionError
  | ValueError
  | UserError user_error

text \<open>Python's \<open>xs[i]\<close> on a list, for an index that is not negative.\<close>

definition list_index :: "'a list \<Rightarrow> nat \<Rightarrow> error + 'a" where
  "list_index xs i = (if i < length xs then Inr (xs ! i) else Inl IndexError)"


section \<open>Bit-depth resolver (imageops.py, \<open>_get_bit_depth\<close>)\<close>

datatype itype = uint8 | uint16 | int32

text \<open>\<open>np.iinfo(itype).max\<close> for the three types the resolver lists.\<close>

definition iinfo_max :: "itype \<Rightarrow> int" where
  "iinfo_max t = (case t of uint8 \<Rightarrow> 255 | uint16 \<Rightarrow> 65535 | int32 \<Rightarrow> 2147483647)"

definition types :: "(itype \<times> int) list" where
  "types = map (\<lambda>t. (t, iinfo_max t)) [uint8, uint16, int32]"

text \<open>
  \<open>np.digitize(x, bins, right=True)\<close> on increasing bins: the index \<open>i\<close> with
  \<open>bins[i-1] < x \<le> bins[i]\<close>, that is, how many bins lie strictly below \<open>x\<close>.
\<close>

definition digitize_right :: "int \<Rightarrow> int list \<Rightarrow> nat" where
  "digitize_right x bins = length (takeWhile (\<lambda>b. b < x) bins)"

text \<open>The resolver on the observed maximum \<open>img.max()\<close>.\<close>

definition get_bit_depth_of_max :: "int \<Rightarrow> error + (itype \<times> int)" where
  "get_bit_depth_of_max v = list_index types (digitize_right v (map snd types))"

text \<open>
  The resolver on a pixel buffer (flattened); \<open>img.max()\<close> of an empty array
  raises ValueError.
\<close>

definition get_bit_depth :: "int list \<Rightarrow> error + (itype \<times> int)" where
  "get_bit_depth img =
     (if img = [] then Inl ValueError else get_bit_depth_of_max (Max (set img)))"


section \<open>Numbers of the normalizer (analyze.py)\<close>

text \<open>
  A Python float.  Finite values are exact rationals: rounding is not modelled,
  and neither is the sign of a zero.
\<close>

datatype pyfloat = Fin rat | PosInf | NegInf | NaN

text \<open>
  What \<open>Image.get_raw_value\<close> returns: the score, an \<open>np.int64\<close> (the scorer
  sums with \<open>dtype=np.int64\<close>), or \<open>np.nan\<close>, which is a Python float.
\<close>

datatype raw_value = NpInt64 "64 word" | NpNan

text \<open>\<open>raw * 100\<close>: an \<open>np.int64\<close> product wraps around; \<open>nan * 100\<close> is \<open>nan\<close>.\<close>

definition times100 :: "raw_value \<Rightarrow> raw_value" where
  "times100 v = (case v of NpInt64 s \<Rightarrow> NpInt64 (s * 100) | NpNan \<Rightarrow> NpNan)"

text \<open>
  \<open>np.floor_divide\<close> on float64, for a finite dividend.  A numpy scalar never
  raises ZeroDivisionError: a zero divisor gives an infinity (or \<open>nan\<close> for
  \<open>0 // 0\<close>) and a RuntimeWarning.  An infinite divisor gives the floor of a
  quotient just above or just below zero.
\<close>

definition np_floor_divide :: "rat \<Rightarrow> pyfloat \<Rightarrow> pyfloat" where
  "np_floor_divide a b =
     (case b of
        Fin c \<Rightarrow>
          (if c = 0 then (if a = 0 then NaN else if 0 < a then PosInf else NegInf)
           else Fin (of_int \<lfloor>a / c\<rfloor>))
      | PosInf \<Rightarrow> Fin (if a < 0 then - 1 else 0)
      | NegInf \<Rightarrow> Fin (if 0 < a then - 1 else 0)
      | NaN \<Rightarrow> NaN)"

text \<open>
  \<open>a // b\<close> for a raw value \<open>a\<close> and a Python float \<open>b\<close>.  With \<open>a\<close> an
  \<open>np.int64\<close> the operation is numpy's, on float64.  With \<open>a = nan\<close> both are
  Python floats: Python raises ZeroDivisionError when \<open>b\<close> is zero, and gives
  \<open>nan\<close> otherwise.
\<close>

definition floordiv :: "raw_value \<Rightarrow> pyfloat \<Rightarrow> error + pyfloat" where
  "floordiv a b =
     (case a of
        NpInt64 s \<Rightarrow> Inr (np_floor_divide (of_int (sint s)) b)
      | NpNan \<Rightarrow> (if b = Fin 0 then Inl ZeroDivisionError else Inr NaN))"

text \<open>\<open>val < cap\<close> for a float \<open>val\<close> and an integer \<open>cap\<close>.\<close>

definition float_less_int :: "pyfloat \<Rightarrow> int \<Rightarrow> bool" where
  "float_less_int v c =
     (case v of Fin q \<Rightarrow> q < of_int c | PosInf \<Rightarrow> False | NegInf \<Rightarrow> True | NaN \<Rightarrow> False)"

text \<open>
  \<open>np.nanmedian\<close> of an array built from raw values: the median of the values
  that are not \<open>nan\<close> (the mean of the two middle ones when their number is even),
  \<open>nan\<close> when there is none.
\<close>

definition nanmedian :: "raw_value list \<Rightarrow> pyfloat" where
  "nanmedian vs =
     (let xs = sort (concat (map (\<lambda>v. case v of NpInt64 s \<Rightarrow> [of_int (sint s) :: rat]
                                              | NpNan \<Rightarrow> []) vs));
          n = length xs
      in if n = 0 then NaN
         else if odd n then Fin (xs ! (n div 2))
         else Fin ((xs ! (n div 2 - 1) + xs ! (n div 2)) / 2))"


section \<open>Well records (analyze.py, class \<open>Image\<close>)\<close>

text \<open>
  The fields of \<open>Image\<close> that the normalizer reads and writes.  The images, the
  metadata and the mask are files and are left out; \<open>value'\<close> is the field
  \<open>value\<close>.
\<close>

record Image =
  fl_filename :: string
  plate :: string
  xy :: nat
  group :: string
  value' :: "raw_value option"
  normalized_value :: "pyfloat option"

text \<open>
  The search \<open>re.search(r'([a-zA-Z0-9]+)_XY([0-9][0-9])_', filename)\<close>, on
  ASCII file names.  The run of letters and digits is greedy and must be followed
  by an underscore, so at each start position only the longest run can match;
  the leftmost start wins.  The result is \<open>(group(1), int(group(2)))\<close>.
\<close>

definition is_digit :: "char \<Rightarrow> bool" where
  "is_digit c = (let n = (of_char c :: nat) in 48 \<le> n \<and> n \<le> 57)"

definition is_alnum :: "char \<Rightarrow> bool" where
  "is_alnum c =
     (let n = (of_char c :: nat)
      in (48 \<le> n \<and> n \<le> 57) \<or> (65 \<le> n \<and> n \<le> 90) \<or> (97 \<le> n \<and> n \<le> 122))"

definition match_here :: "string \<Rightarrow> (string \<times> nat) option" where
  "match_here s =
     (let run = takeWhile is_alnum s
      in if run = [] then None
         else (case dropWhile is_alnum s of
                 u1 # cX # cY # d1 # d2 # u2 # rest \<Rightarrow>
                   if u1 = CHR ''_'' \<and> cX = CHR ''X'' \<and> cY = CHR ''Y'' \<and>
                      is_digit d1 \<and> is_digit d2 \<and> u2 = CHR ''_''
                   then Some (run, (of_char d1 - 48) * 10 + (of_char d2 - 48))
                   else None
               | _ \<Rightarrow> None))"

fun re_search :: "string \<Rightarrow> (string \<times> nat) option" where
  "re_search [] = None"
| "re_search (c # cs) =
     (case match_here (c # cs) of Some r \<Rightarrow> Some r | None \<Rightarrow> re_search cs)"

text \<open>\<open>Image.__init__\<close>.\<close>

definition Image_init :: "string \<Rightarrow> string \<Rightarrow> error + Image" where
  "Image_init filename grp =
     (case re_search filename of
        None \<Rightarrow> Inl (UserError (MissingXY filename))
      | Some (p, n) \<Rightarrow>
          Inr \<lparr>fl_filename = filename, plate = p, xy = n, group = grp,
               value' = None, normalized_value = None\<rparr>)"

text \<open>
  \<open>Image.get_raw_value\<close>.  The parameter \<open>scorer\<close> stands for reading the
  record's image files, building the mask and calling \<open>imageops.score\<close> on the
  masked image: it gives the score of the files of a name.  The result is the raw
  value and the record with the value cached.
\<close>

definition get_raw_value :: "(string \<Rightarrow> 64 word) \<Rightarrow> Image \<Rightarrow> raw_value \<times> Image" where
  "get_raw_value scorer self =
     (case value' self of
        None \<Rightarrow>
          (let score = scorer (fl_filename self);
               v = (if 0 < sint score then NpInt64 score else NpNan)
           in (v, self\<lparr>value' := Some v\<rparr>))
      | Some v \<Rightarrow> (v, self))"

text \<open>The line \<open>normalize\<close> prints when it catches ZeroDivisionError.\<close>

datatype diagnostic = ControlError string string raw_value pyfloat

text \<open>
  \<open>Image.normalize\<close>.  The control values are a dictionary from plate to float,
  here an association list with distinct keys.  A plate without an entry raises
  KeyError, which \<open>normalize\<close> does not catch.  The result is the record and the
  lines printed.
\<close>

definition normalize ::
  "(string \<Rightarrow> 64 word) \<Rightarrow> Image \<Rightarrow> (string \<times> pyfloat) list \<Rightarrow> int \<Rightarrow>
   error + (Image \<times> diagnostic list)" where
  "normalize scorer self control_values cap =
     (let (raw, self1) = get_raw_value scorer self
      in case map_of control_values (plate self1) of
           None \<Rightarrow> Inl KeyError
         | Some ctrl \<Rightarrow>
             (case floordiv (times100 raw) ctrl of
                Inr val \<Rightarrow>
                  Inr (self1\<lparr>normalized_value :=
                         Some (if 0 < cap then (if float_less_int val cap then val else NaN)
                               else val)\<rparr>, [])
              | Inl e \<Rightarrow>
                  (if e = ZeroDivisionError
                   then Inr (self1\<lparr>normalized_value := Some NaN\<rparr>,
                             [ControlError (plate self1) (group self1)
                                (fst (get_raw_value scorer self1)) ctrl])
                   else Inl e)))"


section \<open>Control values and quantification (analyze.py)\<close>

text \<open>
  \<open>_calculate_control_values\<close>.  The dictionary is built with one entry for
  each plate of a control image (\<open>np.unique\<close> also sorts the plates, which a
  dictionary does not show), and is empty exactly when there is no control image.
  The raw values are computed through \<open>get_raw_value\<close>; the cache it fills only
  memoises \<open>scorer\<close>, so the updated records are not passed on.
\<close>

definition calculate_control_values ::
  "(string \<Rightarrow> 64 word) \<Rightarrow> Image list \<Rightarrow> string list \<Rightarrow> error + (string \<times> pyfloat) list"
  where
  "calculate_control_values scorer images plate_control =
     (let ctrl_imgs = filter (\<lambda>img. group img \<in> set plate_control) images;
          ctrl_vals =
            map (\<lambda>p. (p, nanmedian (map (\<lambda>img. fst (get_raw_value scorer img))
                                       (filter (\<lambda>img. plate img = p) ctrl_imgs))))
                (remdups (map plate ctrl_imgs))
      in if ctrl_vals = [] then Inl (UserError NoControlWells) else Inr ctrl_vals)"

text \<open>The list of \<open>Image(filename, group, debug)\<close>: the first failure aborts.\<close>

fun build_images :: "(string \<times> string) list \<Rightarrow> error + Image list" where
  "build_images [] = Inr []"
| "build_images ((filename, grp) # rest) =
     (case Image_init filename grp of
        Inl e \<Rightarrow> Inl e
      | Inr img \<Rightarrow>
          (case build_images rest of Inl e \<Rightarrow> Inl e | Inr imgs \<Rightarrow> Inr (img # imgs)))"

text \<open>The list of \<open>image.normalize(control_values, cap)\<close>, with the lines printed.\<close>

fun normalize_all ::
  "(string \<Rightarrow> 64 word) \<Rightarrow> Image list \<Rightarrow> (string \<times> pyfloat) list \<Rightarrow> int \<Rightarrow>
   error + (Image list \<times> diagnostic list)" where
  "normalize_all scorer [] control_values cap = Inr ([], [])"
| "normalize_all scorer (img # rest) control_values cap =
     (case normalize scorer img control_values cap of
        Inl e \<Rightarrow> Inl e
      | Inr (img', out) \<Rightarrow>
          (case normalize_all scorer rest control_values cap of
             Inl e \<Rightarrow> Inl e
           | Inr (imgs, outs) \<Rightarrow> Inr (img' # imgs, out @ outs)))"

text \<open>
  \<open>quantify\<close>.  The parameter \<open>matches\<close> stands for \<open>pattern.search(group)\<close>
  with the compiled \<open>group_regex\<close> (the default \<open>.*\<close> matches every label).
\<close>

definition quantify ::
  "(string \<Rightarrow> 64 word) \<Rightarrow> (string \<Rightarrow> bool) \<Rightarrow> string list \<Rightarrow> string list \<Rightarrow> int \<Rightarrow>
   string list \<Rightarrow> error + (Image list \<times> diagnostic list)" where
  "quantify scorer matches imagefiles plate_control cap schematic =
     (case build_images
             (filter (\<lambda>(filename, grp). grp \<in> set plate_control \<or> matches grp)
                (zip imagefiles schematic)) of
        Inl e \<Rightarrow> Inl e
      | Inr images \<Rightarrow>
          (case calculate_control_values scorer images plate_control of
             Inl e \<Rightarrow> Inl e
           | Inr control_values \<Rightarrow> normalize_all scorer images control_values cap))"


section \<open>Plate schematic (analyze.py, \<open>get_schematic\<close>)\<close>

text \<open>
  \<open>_clean\<close> on ASCII cells: keep the printable characters (codes 32 to 126),
  then strip.  Of the characters \<open>strip\<close> removes only the space is printable.
\<close>

definition isprintable :: "char \<Rightarrow> bool" where
  "isprintable c = (let n = (of_char c :: nat) in 32 \<le> n \<and> n \<le> 126)"

definition strip :: "string \<Rightarrow> string" where
  "strip s = rev (dropWhile (\<lambda>c. c = CHR '' '') (rev (dropWhile (\<lambda>c. c = CHR '' '') s)))"

definition clean :: "string \<Rightarrow> string" where
  "clean s = strip (filter isprintable s)"

text \<open>\<open>for row in schematic: del row[0]\<close>; an empty row raises IndexError.\<close>

fun del_first_column :: "'a list list \<Rightarrow> error + 'a list list" where
  "del_first_column [] = Inr []"
| "del_first_column (row # rows) =
     (case row of
        [] \<Rightarrow> Inl IndexError
      | _ # r \<Rightarrow>
          (case del_first_column rows of Inl e \<Rightarrow> Inl e | Inr rs \<Rightarrow> Inr (r # rs)))"

definition cell_count :: "'a list list \<Rightarrow> nat" where
  "cell_count schematic = sum_list (map length schematic)"

datatype schematic = Nested "string list list" | Flat "string list"

text \<open>
  \<open>get_schematic\<close>.  \<open>platefile\<close> is \<open>None\<close> when no file is given, and
  otherwise the rows \<open>csv.reader\<close> yields for the file.  \<open>layout_default\<close> stands
  for \<open>keyence.LAYOUT_DEFAULT\<close>.
\<close>

definition get_schematic ::
  "schematic \<Rightarrow> string list list option \<Rightarrow> nat \<Rightarrow> string list \<Rightarrow> bool \<Rightarrow> error + schematic"
  where
  "get_schematic layout_default platefile target_count plate_ignore flat =
     (case platefile of
        None \<Rightarrow> Inr layout_default
      | Some rows \<Rightarrow>
          (let plate_ignore' =
                 (if [] \<in> set plate_ignore then plate_ignore else plate_ignore @ [[]]);
               schematic =
                 map (\<lambda>row. map clean (filter (\<lambda>well. well \<notin> set plate_ignore') row)) rows;
               finish = (\<lambda>sch. Inr (if \<not> flat then Nested sch else Flat (concat sch)))
           in if cell_count schematic \<noteq> target_count
              then (case schematic of
                      [] \<Rightarrow> Inl IndexError
                    | _ # rest \<Rightarrow>
                        (case del_first_column rest of
                           Inl e \<Rightarrow> Inl e
                         | Inr stripped \<Rightarrow>
                             if cell_count stripped \<noteq> target_count
                             then Inl (UserError (CellCountMismatch (cell_count stripped)
                                                    target_count))
                             else finish stripped))
              else finish schematic))"


section \<open>Background subtraction (imageops.py, \<open>subtract\<close>)\<close>

text \<open>
  The images are one-dimensional arrays of one unsigned pixel type (uint8,
  uint16), the words of their width; a two-dimensional image is its pixels in
  order, and two images of one shape behave as their pixel lists do.  float64
  values are exact rationals: rounding is not modelled.
\<close>

text \<open>
  \<open>np.median\<close> of an array of numbers: the middle value, the mean of the two
  middle values when their number is even, \<open>nan\<close> for an empty array.
\<close>

definition np_median :: "rat list \<Rightarrow> pyfloat" where
  "np_median vs =
     (if vs = [] then NaN
      else if odd (length vs) then Fin (sort vs ! (length vs div 2))
      else Fin ((sort vs ! (length vs div 2 - 1) + sort vs ! (length vs div 2)) / 2))"

text \<open>
  The first lines under \<open>if scale\<close>: the threshold in pixel units, the
  intersection mask, and the medians of the two images restricted to the mask.
\<close>

definition masked_medians ::
  "int \<Rightarrow> rat \<Rightarrow> 'a::len word list \<Rightarrow> 'a word list \<Rightarrow> pyfloat \<times> pyfloat" where
  "masked_medians bit_depth_max threshold minuend_image subtrahend_image =
     (let threshold_px = of_int bit_depth_max * threshold;
          intersection_mask =
            map (\<lambda>(m, s). threshold_px < of_int (uint m) \<and> threshold_px < of_int (uint s))
              (zip minuend_image subtrahend_image);
          masked = (\<lambda>image. map (\<lambda>(px, keep). rat_of_int (uint px))
                               (filter snd (zip image intersection_mask)))
      in (np_median (masked minuend_image), np_median (masked subtrahend_image)))"

text \<open>
  The scaling and the cast: the subtrahend times the ratio of the medians, and
  \<open>scaled_image.astype(subtrahend_image.dtype)\<close>.  The products are not
  negative, so the cast takes the floor, and a floor outside the range of the
  pixel type wraps around (75000 becomes 9464 as uint16).  With an empty mask
  the medians are \<open>nan\<close> and so is every product (numpy warns, it does not
  raise); what the cast makes of a value that is not finite depends on the
  platform, and is the parameter \<open>cast_nonfinite\<close>.
\<close>

definition scale_subtrahend ::
  "'a::len word \<Rightarrow> int \<Rightarrow> rat \<Rightarrow> 'a word list \<Rightarrow> 'a word list \<Rightarrow> 'a word list" where
  "scale_subtrahend cast_nonfinite bit_depth_max threshold minuend_image subtrahend_image =
     (case masked_medians bit_depth_max threshold minuend_image subtrahend_image of
        (Fin minuend_masked_median, Fin subtrahend_masked_median) \<Rightarrow>
          if subtrahend_masked_median = 0
          then map (\<lambda>_. cast_nonfinite) subtrahend_image
          else map (\<lambda>px. word_of_int
                            \<lfloor>of_int (uint px) *
                               (minuend_masked_median / subtrahend_masked_median)\<rfloor>)
                 subtrahend_image
      | _ \<Rightarrow> map (\<lambda>_. cast_nonfinite) subtrahend_image)"

text \<open>
  The last line, on the paired pixels:
  \<open>np.where(minuend < subtrahend, 0, minuend - subtrahend)\<close>.  The difference
  is taken on the pixel type, where it wraps around, and \<open>np.where\<close> puts 0
  where the minuend is smaller.
\<close>

definition without_underflow :: "('a::len word \<times> 'a word) list \<Rightarrow> 'a word list" where
  "without_underflow pairs = map (\<lambda>(m, s). if m < s then 0 else m - s) pairs"

text \<open>
  numpy's pairing of two one-dimensional arrays: element by element when the
  lengths agree, an array of length 1 stretched to the other, ValueError
  otherwise.
\<close>

definition broadcast :: "'a list \<Rightarrow> 'b list \<Rightarrow> error + ('a \<times> 'b) list" where
  "broadcast xs ys =
     (if length xs = length ys then Inr (zip xs ys)
      else if length xs = 1 then Inr (map (\<lambda>y. (hd xs, y)) ys)
      else if length ys = 1 then Inr (map (\<lambda>x. (x, hd ys)) xs)
      else Inl ValueError)"

text \<open>
  \<open>subtract\<close>.  With scaling, the bit depth of the minuend is resolved first
  (ValueError on an empty image); lengths that do not broadcast raise ValueError
  at the mask, and lengths that differ but broadcast raise IndexError where the
  mask indexes the shorter image.
\<close>

definition subtract ::
  "'a::len word \<Rightarrow> 'a word list \<Rightarrow> 'a word list \<Rightarrow> bool \<Rightarrow> rat \<Rightarrow> error + 'a word list"
  where
  "subtract cast_nonfinite minuend_image subtrahend_image scale threshold =
     (if scale
      then (case get_bit_depth (map uint minuend_image) of
              Inl e \<Rightarrow> Inl e
            | Inr bit_depth \<Rightarrow>
                (case broadcast minuend_image subtrahend_image of
                   Inl e \<Rightarrow> Inl e
                 | Inr _ \<Rightarrow>
                     if length minuend_image \<noteq> length subtrahend_image then Inl IndexError
                     else Inr (without_underflow
                                 (zip minuend_image
                                    (scale_subtrahend cast_nonfinite (snd bit_depth) threshold
                                       minuend_image subtrahend_image)))))
      else (case broadcast minuend_image subtrahend_image of
              Inl e \<Rightarrow> Inl e
            | Inr pairs \<Rightarrow> Inr (without_underflow pairs)))"


section \<open>Scorer (imageops.py, \<open>score\<close>)\<close>

text \<open>
  A two-dimensional array of integer pixels, as its list of rows: \<open>img[y][x]\<close>
  is \<open>img ! y ! x\<close>.  \<open>shape\<close> is \<open>(height, width)\<close>.
\<close>

type_synonym ndarray = "int list list"

definition shape :: "ndarray \<Rightarrow> int \<times> int" where
  "shape img = (int (length img), (case img of [] \<Rightarrow> 0 | row # _ \<Rightarrow> int (length row)))"

text \<open>Indexing with an integer: a negative index counts from the end.\<close>

definition np_index :: "'a list \<Rightarrow> int \<Rightarrow> error + 'a" where
  "np_index xs i =
     (if 0 \<le> i \<and> i < int (length xs) then Inr (xs ! nat i)
      else if i < 0 \<and> - int (length xs) \<le> i then Inr (xs ! nat (int (length xs) + i))
      else Inl IndexError)"

definition getpx :: "ndarray \<Rightarrow> int \<Rightarrow> int \<Rightarrow> error + int" where
  "getpx img y x = (case np_index img y of Inl e \<Rightarrow> Inl e | Inr row \<Rightarrow> np_index row x)"

text \<open>The inner loop \<open>for y in range(y_min, y_max + 1)\<close>, for one \<open>x\<close>.\<close>

fun collect_column ::
  "ndarray \<Rightarrow> int \<Rightarrow> int \<Rightarrow> int \<Rightarrow> int \<Rightarrow> int list \<Rightarrow> int list \<Rightarrow> error + int list" where
  "collect_column img radius coord_y coord_x x [] points = Inr points"
| "collect_column img radius coord_y coord_x x (y # ys) points =
     (if (x - coord_x)\<^sup>2 + (y - coord_y)\<^sup>2 > radius\<^sup>2
      then collect_column img radius coord_y coord_x x ys points
      else (case getpx img y x of
              Inl e \<Rightarrow> Inl e
            | Inr v \<Rightarrow> collect_column img radius coord_y coord_x x ys (points @ [v])))"

text \<open>The outer loop \<open>for x in range(x_min, x_max + 1)\<close>.\<close>

fun collect_points ::
  "ndarray \<Rightarrow> int \<Rightarrow> int \<Rightarrow> int \<Rightarrow> int list \<Rightarrow> int list \<Rightarrow> int list \<Rightarrow> error + int list"
  where
  "collect_points img radius coord_y coord_x ys [] points = Inr points"
| "collect_points img radius coord_y coord_x ys (x # xs) points =
     (case collect_column img radius coord_y coord_x x ys points of
        Inl e \<Rightarrow> Inl e
      | Inr points' \<Rightarrow> collect_points img radius coord_y coord_x ys xs points')"

text \<open>The bounding box and the two loops: the list \<open>points\<close> of one maximum.\<close>

definition points_around :: "ndarray \<Rightarrow> int \<Rightarrow> int \<Rightarrow> int \<Rightarrow> error + int list" where
  "points_around img radius coord_y coord_x =
     (let (height, width) = shape img;
          x_min = max (coord_x - radius) 0; x_max = min (coord_x + radius) width;
          y_min = max (coord_y - radius) 0; y_max = min (coord_y + radius) height
      in collect_points img radius coord_y coord_x [y_min..y_max] [x_min..x_max] [])"

text \<open>
  \<open>sorted(points, reverse=True)[:int(len(points) * threshold_pct)]\<close> with
  \<open>threshold_pct = 0.05\<close>.  The float product truncates to \<open>len(points) div 20\<close>:
  the float 0.05 exceeds one twentieth by the factor \<open>1 + 2^-54\<close>, too little to
  move a multiple of 20 off its quotient or any other length across an integer.
\<close>

definition relevant_points :: "int list \<Rightarrow> int list" where
  "relevant_points points = take (length points div 20) (rev (sort points))"

text \<open>\<open>np.sum(relevant_points, dtype=np.int64)\<close>: the sum wraps at 64 bits.\<close>

definition np_sum_int64 :: "int list \<Rightarrow> 64 word" where
  "np_sum_int64 ps = sum_list (map word_of_int ps)"

text \<open>
  The loop over the coordinates (\<open>total'\<close> is the variable \<open>total\<close>) and
  \<open>score\<close>, with \<open>count\<close> and
  \<open>threshold_pct\<close> at their defaults.  \<open>coordinates\<close> stands for the result of
  \<open>_get_local_maxima(img, count=count, spacing=radius)\<close>, that is, of
  \<open>skimage.feature.peak_local_max\<close>: pairs \<open>(coord_y, coord_x)\<close>.
\<close>

fun score_loop ::
  "ndarray \<Rightarrow> int \<Rightarrow> (int \<times> int) list \<Rightarrow> 64 word \<Rightarrow> error + 64 word" where
  "score_loop img radius [] total' = Inr total'"
| "score_loop img radius ((coord_y, coord_x) # rest) total' =
     (case points_around img radius coord_y coord_x of
        Inl e \<Rightarrow> Inl e
      | Inr points \<Rightarrow>
          score_loop img radius rest (total' + np_sum_int64 (relevant_points points)))"

definition score :: "ndarray \<Rightarrow> (int \<times> int) list \<Rightarrow> int \<Rightarrow> error + 64 word" where
  "score img coordinates radius = score_loop img radius coordinates 0"

text \<open>
  The pixels of the whole image at a distance of at most \<open>radius\<close> from a
  maximum, column by column; and the same with the distance strictly below
  \<open>radius\<close>, as the specification words it.
\<close>

definition disc_pixels :: "ndarray \<Rightarrow> int \<Rightarrow> int \<Rightarrow> int \<Rightarrow> int list" where
  "disc_pixels img radius coord_y coord_x =
     concat (map (\<lambda>x. map (\<lambda>y. img ! nat y ! nat x)
                        (filter (\<lambda>y. (x - coord_x)\<^sup>2 + (y - coord_y)\<^sup>2 \<le> radius\<^sup>2)
                           [0..fst (shape img) - 1]))
               [0..snd (shape img) - 1])"

definition disc_pixels_strict :: "ndarray \<Rightarrow> int \<Rightarrow> int \<Rightarrow> int \<Rightarrow> int list" where
  "disc_pixels_strict img radius coord_y coord_x =
     concat (map (\<lambda>x. map (\<lambda>y. img ! nat y ! nat x)
                        (filter (\<lambda>y. (x - coord_x)\<^sup>2 + (y - coord_y)\<^sup>2 < radius\<^sup>2)
                           [0..fst (shape img) - 1]))
               [0..snd (shape img) - 1])"

definition score_spec_strict :: "ndarray \<Rightarrow> (int \<times> int) list \<Rightarrow> int \<Rightarrow> 64 word" where
  "score_spec_strict img coordinates radius =
     sum_list (map (\<lambda>(coord_y, coord_x).
                      np_sum_int64 (relevant_points
                        (disc_pixels_strict img radius coord_y coord_x))) coordinates)"


text \<open>
  Two images for the examples.  \<open>peak_image\<close> is 17 by 17, black but for the value
  10 at the centre \<open>(8, 8)\<close> and the value 5 at \<open>(y, x) = (8, 16)\<close>, at distance
  exactly 8 from the centre.  With a minimal distance of 8 the peak detector
  excludes a border of 8 pixels, so the centre is its only maximum.
  \<open>small_image\<close> is 5 by 5 with the value 7 everywhere.
\<close>

definition peak_image :: ndarray where
  "peak_image =
     replicate 8 (replicate 17 0) @ [replicate 8 0 @ [10] @ replicate 7 0 @ [5]] @
     replicate 8 (replicate 17 0)"



section \<open>Aspect mask (imageops.py, \<open>get_aspect_mask\<close>)\<close>

text \<open>
  OpenCV is outside the repository; its three functions are parameters.
  \<^item> \<open>find_contours img\<close> stands for the external contours
    \<open>cv.findContours(img, cv.RETR_EXTERNAL, cv.CHAIN_APPROX_SIMPLE)\<close> returns.
  \<^item> \<open>fit_ellipse contour\<close> stands for the middle component of
    \<open>cv.fitEllipse(contour)\<close>, the two axis lengths, which the code names
    \<open>(minor, major)\<close>; it can fail (OpenCV rejects a contour of fewer than five
    points).  The lengths are Python floats, here exact rationals.
  \<^item> \<open>covers contour y x\<close> says that the pixel in row \<open>y\<close> and column \<open>x\<close>
    belongs to the contour drawn filled (\<open>cv.FILLED\<close>).
\<close>

text \<open>\<open>_aspect_is_between\<close>; the division of Python floats raises on a zero \<open>minor\<close>.\<close>

definition aspect_is_between ::
  "('c \<Rightarrow> error + rat \<times> rat) \<Rightarrow> 'c \<Rightarrow> rat \<Rightarrow> rat \<Rightarrow> error + bool" where
  "aspect_is_between fit_ellipse contour upper lower =
     (case fit_ellipse contour of
        Inl e \<Rightarrow> Inl e
      | Inr (minor, major) \<Rightarrow>
          if minor = 0 then Inl ZeroDivisionError
          else (let aspect_ratio = major / minor
                in Inr (aspect_ratio < upper \<and> aspect_ratio > lower)))"

text \<open>The list comprehension that keeps the contours passing the test.\<close>

fun keep_contours ::
  "('c \<Rightarrow> error + rat \<times> rat) \<Rightarrow> 'c list \<Rightarrow> rat \<Rightarrow> rat \<Rightarrow> error + 'c list" where
  "keep_contours fit_ellipse [] upper lower = Inr []"
| "keep_contours fit_ellipse (contour # rest) upper lower =
     (case aspect_is_between fit_ellipse contour upper lower of
        Inl e \<Rightarrow> Inl e
      | Inr keep \<Rightarrow>
          (case keep_contours fit_ellipse rest upper lower of
             Inl e \<Rightarrow> Inl e
           | Inr kept \<Rightarrow> Inr (if keep then contour # kept else kept)))"

text \<open>
  \<open>cv.drawContours(canvas, contours, -1, colour, cv.FILLED)\<close> on a canvas of one
  channel: every pixel of a filled contour takes the first component of the
  colour, the others keep the value of the canvas.
\<close>

definition draw_contours ::
  "('c \<Rightarrow> nat \<Rightarrow> nat \<Rightarrow> bool) \<Rightarrow> nat list list \<Rightarrow> 'c list \<Rightarrow> nat \<times> nat \<times> nat \<Rightarrow>
   nat list list" where
  "draw_contours covers canvas contours colour =
     map (\<lambda>(y, row).
            map (\<lambda>(x, px). if list_ex (\<lambda>c. covers c y x) contours then fst colour else px)
              (enumerate 0 row))
       (enumerate 0 canvas)"

text \<open>
  \<open>get_aspect_mask\<close>.  The canvas \<open>np.ones(img.shape, dtype=np.uint8) * 255\<close> has
  the shape of the image and the value 255 everywhere; the colour is
  \<open>(0, 255, 0)\<close>.
\<close>

definition get_aspect_mask ::
  "(nat list list \<Rightarrow> 'c list) \<Rightarrow> ('c \<Rightarrow> error + rat \<times> rat) \<Rightarrow> ('c \<Rightarrow> nat \<Rightarrow> nat \<Rightarrow> bool) \<Rightarrow>
   nat list list \<Rightarrow> rat \<Rightarrow> rat \<Rightarrow> error + nat list list" where
  "get_aspect_mask find_contours fit_ellipse covers img target_ratio error_bound =
     (let contours = find_contours img
      in if 1 + error_bound = 0 then Inl ZeroDivisionError
         else (let upper = target_ratio * (1 + error_bound);
                   lower = target_ratio / (1 + error_bound)
               in case keep_contours fit_ellipse contours upper lower of
                    Inl e \<Rightarrow> Inl e
                  | Inr kept \<Rightarrow>
                      Inr (draw_contours covers (map (map (\<lambda>_. 255)) img) kept
                             (0, 255, 0))))"

text \<open>
  The rendering as the specification words it: the kept contours filled with the
  value 255 on the canvas of 255.
\<close>

definition get_aspect_mask_filled_255 ::
  "(nat list list \<Rightarrow> 'c list) \<Rightarrow> ('c \<Rightarrow> error + rat \<times> rat) \<Rightarrow> ('c \<Rightarrow> nat \<Rightarrow> nat \<Rightarrow> bool) \<Rightarrow>
   nat list list \<Rightarrow> rat \<Rightarrow> rat \<Rightarrow> error + nat list list" where
  "get_aspect_mask_filled_255 find_contours fit_ellipse covers img target_ratio error_bound =
     (let contours = find_contours img
      in if 1 + error_bound = 0 then Inl ZeroDivisionError
         else (let upper = target_ratio * (1 + error_bound);
                   lower = target_ratio / (1 + error_bound)
               in case keep_contours fit_ellipse contours upper lower of
                    Inl e \<Rightarrow> Inl e
                  | Inr kept \<Rightarrow>
                      Inr (draw_contours covers (map (map (\<lambda>_. 255)) img) kept
                             (255, 255, 255))))"


section \<open>Theorems\<close>

subsection \<open>Bit-depth resolver\<close>

lemma get_bit_depth_of_max_cases:
  "get_bit_depth_of_max v =
     (if v \<le> 255 then Inr (uint8, 255)
      else if v \<le> 65535 then Inr (uint16, 65535)
      else if v \<le> 2147483647 then Inr (int32, 2147483647)
      else Inl IndexError)"
  by (simp add: get_bit_depth_of_max_def types_def iinfo_max_def digitize_right_def
      list_index_def)




subsection \<open>Normalizer\<close>

lemma get_raw_value_plate: "plate (snd (get_raw_value scorer self)) = plate self"
  by (simp add: get_raw_value_def Let_def split: option.splits)

lemma sint_times100:
  fixes s :: "64 word"
  assumes "- (2 ^ 63) \<le> sint s * 100" and "sint s * 100 < 2 ^ 63"
  shows "sint (s * 100) = sint s * 100"
proof -
  have "sint (s * 100) = signed_take_bit 63 (sint s * sint (100 :: 64 word))"
    by (simp add: sint_word_ariths)
  also have "sint (100 :: 64 word) = 100" by simp
  finally show ?thesis
    using assms by (simp add: signed_take_bit_int_eq_self)
qed

lemma normalize_finite:
  assumes raw: "fst (get_raw_value scorer self) = NpInt64 s"
      and ctrl: "map_of control_values (plate self) = Some (Fin c)"
      and c: "c \<noteq> 0"
  shows "normalize scorer self control_values cap =
           Inr ((snd (get_raw_value scorer self))\<lparr>normalized_value :=
                  Some (if 0 < cap \<and>
                           rat_of_int cap \<le> of_int \<lfloor>of_int (sint (s * 100)) / c\<rfloor>
                        then NaN
                        else Fin (of_int \<lfloor>of_int (sint (s * 100)) / c\<rfloor>))\<rparr>, [])"
proof -
  obtain r s1 where g: "get_raw_value scorer self = (r, s1)"
    by (cases "get_raw_value scorer self")
  with raw have r: "r = NpInt64 s" by simp
  from g have p: "plate s1 = plate self"
    using get_raw_value_plate [of scorer self] by simp
  show ?thesis
    using ctrl c
    by (simp add: normalize_def g r p times100_def floordiv_def np_floor_divide_def
        float_less_int_def not_less)
qed

text \<open>
  Claim C3.  For a record whose raw score is an integer \<open>s\<close> (not missing) with
  \<open>s * 100\<close> inside the 64-bit range, and a control median \<open>c\<close> that is finite
  and not zero, let \<open>v = floor (s * 100 / c)\<close>.  With a cap above zero the stored
  value is missing exactly when \<open>v\<close> is at least the cap, and is \<open>v\<close> otherwise;
  with a cap of zero or below the stored value is always \<open>v\<close>.  Nothing is
  printed.
\<close>

theorem normalize_cap_boundary:
  assumes raw: "fst (get_raw_value scorer self) = NpInt64 s"
      and lo: "- (2 ^ 63) \<le> sint s * 100" and hi: "sint s * 100 < 2 ^ 63"
      and ctrl: "map_of control_values (plate self) = Some (Fin c)"
      and c: "c \<noteq> 0"
      and v: "v = rat_of_int \<lfloor>rat_of_int (sint s * 100) / c\<rfloor>"
  shows "\<exists>self'. normalize scorer self control_values cap = Inr (self', []) \<and>
           (0 < cap \<longrightarrow> (normalized_value self' = Some NaN \<longleftrightarrow> of_int cap \<le> v) \<and>
                        (v < of_int cap \<longrightarrow> normalized_value self' = Some (Fin v))) \<and>
           (cap \<le> 0 \<longrightarrow> normalized_value self' = Some (Fin v))"
  using normalize_finite [OF raw ctrl c, of cap] sint_times100 [OF lo hi] v
  by auto

theorem normalize_cap_boundary_witness:
  "\<exists>self'. normalize (\<lambda>_. 300)
       \<lparr>fl_filename = ''P1_XY04_CH1.tif'', plate = ''P1'', xy = 4, group = ''T'',
        value' = None, normalized_value = None\<rparr> [(''P1'', Fin 150)] 150 = Inr (self', []) \<and>
     normalized_value self' = Some NaN"
proof -
  let ?w = "\<lparr>fl_filename = ''P1_XY04_CH1.tif'', plate = ''P1'', xy = 4, group = ''T'',
        value' = None, normalized_value = None\<rparr>"
  have raw: "fst (get_raw_value (\<lambda>_. 300) ?w) = NpInt64 300"
    by (simp add: get_raw_value_def Let_def)
  have lo: "- (2 ^ 63) \<le> sint (300 :: 64 word) * 100" by simp
  have hi: "sint (300 :: 64 word) * 100 < 2 ^ 63" by simp
  have ctrl: "map_of [(''P1'', Fin 150)] (plate ?w) = Some (Fin 150)" by simp
  have c: "(150 :: rat) \<noteq> 0" by simp
  have v: "(200 :: rat) = rat_of_int \<lfloor>rat_of_int (sint (300 :: 64 word) * 100) / 150\<rfloor>"
    by simp
  from normalize_cap_boundary [OF raw lo hi ctrl c v, of 150]
  show ?thesis by auto
qed

text \<open>
  Claim C4.  For a record whose raw score is missing (cached as \<open>nan\<close>, or not
  yet computed with a score of zero or below) the stored normalized value is
  missing, for every cap and every control value of the record's plate, zero
  included.
\<close>

theorem normalize_missing_propagates:
  assumes raw: "value' self = Some NpNan \<or>
                (value' self = None \<and> sint (scorer (fl_filename self)) \<le> 0)"
      and ctrl: "map_of control_values (plate self) = Some ctrl"
  shows "\<exists>self' out. normalize scorer self control_values cap = Inr (self', out) \<and>
           normalized_value self' = Some NaN"
proof -
  obtain r s1 where g: "get_raw_value scorer self = (r, s1)"
    by (cases "get_raw_value scorer self")
  from raw g have r: "r = NpNan"
    by (auto simp: get_raw_value_def Let_def split: option.splits if_splits)
  from g have p: "plate s1 = plate self"
    using get_raw_value_plate [of scorer self] by simp
  show ?thesis
    using ctrl
    by (simp add: normalize_def g r p times100_def floordiv_def float_less_int_def)
qed

theorem normalize_missing_propagates_witness:
  "\<exists>self' out. normalize (\<lambda>_. 0)
       \<lparr>fl_filename = ''P1_XY04_CH1.tif'', plate = ''P1'', xy = 4, group = ''T'',
        value' = None, normalized_value = None\<rparr> [(''P1'', Fin 0)] 150 = Inr (self', out) \<and>
     normalized_value self' = Some NaN"
proof -
  let ?w = "\<lparr>fl_filename = ''P1_XY04_CH1.tif'', plate = ''P1'', xy = 4, group = ''T'',
        value' = None, normalized_value = None\<rparr>"
  have raw: "value' ?w = Some NpNan \<or>
      (value' ?w = None \<and> sint ((\<lambda>_. 0 :: 64 word) (fl_filename ?w)) \<le> 0)"
    by simp
  have ctrl: "map_of [(''P1'', Fin 0)] (plate ?w) = Some (Fin 0)" by simp
  from normalize_missing_propagates [OF raw ctrl, of 150]
  show ?thesis .
qed

text \<open>
  A record with an integer raw score and a control value of zero: the division
  is numpy's and raises nothing, so nothing is printed.
\<close>

lemma normalize_zero_control_silent:
  assumes raw: "fst (get_raw_value scorer self) = NpInt64 s"
      and ctrl: "map_of control_values (plate self) = Some (Fin 0)"
  shows "\<exists>self'. normalize scorer self control_values cap = Inr (self', [])"
proof -
  obtain r s1 where g: "get_raw_value scorer self = (r, s1)"
    by (cases "get_raw_value scorer self")
  with raw have r: "r = NpInt64 s" by simp
  from g have p: "plate s1 = plate self"
    using get_raw_value_plate [of scorer self] by simp
  show ?thesis
    using ctrl by (simp add: normalize_def g r p times100_def floordiv_def)
qed

text \<open>
  Claim C2, at a record with raw score 5, control median 0 and the default cap
  \<open>-1\<close>: \<open>normalize\<close> prints nothing and stores an infinity, not a missing
  value.  The claim asks for a diagnostic and a missing value there.
\<close>

theorem normalize_zero_control_positive_score:
  "normalize (\<lambda>_. 5)
     \<lparr>fl_filename = ''P1_XY04_CH1.tif'', plate = ''P1'', xy = 4, group = ''T'',
      value' = None, normalized_value = None\<rparr> [(''P1'', Fin 0)] (- 1) =
   Inr (\<lparr>fl_filename = ''P1_XY04_CH1.tif'', plate = ''P1'', xy = 4, group = ''T'',
         value' = Some (NpInt64 5), normalized_value = Some PosInf\<rparr>, [])"
  by (simp add: normalize_def get_raw_value_def times100_def floordiv_def
      np_floor_divide_def Let_def)

subsection \<open>Control wells\<close>

lemma build_images_groups:
  "build_images fgs = Inr imgs \<Longrightarrow> map group imgs = map snd fgs"
proof (induction fgs arbitrary: imgs)
  case Nil
  then show ?case by simp
next
  case (Cons fg fgs)
  obtain f g where fg: "fg = (f, g)" by (cases fg)
  from Cons.prems fg obtain img rest where
    i: "Image_init f g = Inr img" and r: "build_images fgs = Inr rest"
    and im: "imgs = img # rest"
    by (auto split: sum.splits)
  from i have "group img = g"
    by (auto simp: Image_init_def split: option.splits)
  with Cons.IH [OF r] im fg show ?case by simp
qed

lemma build_images_succeeds:
  "\<forall>f \<in> fst ` set fgs. re_search f \<noteq> None \<Longrightarrow> \<exists>imgs. build_images fgs = Inr imgs"
  by (induction fgs) (auto simp: Image_init_def split: option.splits sum.splits)

lemma calculate_control_values_no_control:
  assumes "\<forall>img \<in> set images. group img \<notin> set plate_control"
  shows "calculate_control_values scorer images plate_control =
           Inl (UserError NoControlWells)"
proof -
  from assms have "filter (\<lambda>img. group img \<in> set plate_control) images = []"
    by (simp add: filter_empty_conv)
  then show ?thesis by (simp add: calculate_control_values_def)
qed

text \<open>
  A run in which every file name carries the plate and position, and no well has
  a control label: \<open>quantify\<close> raises the "no control wells" user error.
\<close>

lemma quantify_no_control_wells:
  assumes parse: "\<forall>f \<in> set imagefiles. re_search f \<noteq> None"
      and none: "set schematic \<inter> set plate_control = {}"
  shows "quantify scorer matches imagefiles plate_control cap schematic =
           Inl (UserError NoControlWells)"
proof -
  let ?sel = "filter (\<lambda>(filename, grp). grp \<in> set plate_control \<or> matches grp)
                (zip imagefiles schematic)"
  have "\<forall>f \<in> fst ` set ?sel. re_search f \<noteq> None"
    using parse by (auto dest: set_zip_leftD)
  from build_images_succeeds [OF this]
  obtain images where b: "build_images ?sel = Inr images" by blast
  from build_images_groups [OF b] have "set (map group images) \<subseteq> set schematic"
    by (auto dest: set_zip_rightD)
  with none have "\<forall>img \<in> set images. group img \<notin> set plate_control" by auto
  from calculate_control_values_no_control [OF this] b show ?thesis
    by (simp add: quantify_def)
qed

lemma quantify_all_T:
  "quantify (\<lambda>_. 100) (\<lambda>_. True) [''P1_XY01_CH1.tif'', ''P1_XY02_CH1.tif'']
     [''B''] (- 1) [''T'', ''T''] = Inl (UserError NoControlWells)"
  by code_simp

text \<open>
  Claim C8, at a run of two plates: plate P1 has a control well and a treated
  well, plate P2 has a treated well and no control well.  The table of control
  values is not empty, so the user error is not raised; normalizing the well of
  P2 looks its plate up in the table and raises KeyError.  The claim asks for the
  "no control wells" user error there.
\<close>

theorem quantify_plate_without_control:
  "quantify (\<lambda>_. 100) (\<lambda>_. True)
     [''P1_XY01_CH1.tif'', ''P1_XY02_CH1.tif'', ''P2_XY01_CH1.tif'']
     [''B''] (- 1) [''B'', ''T'', ''T''] = Inl KeyError"
  by code_simp

subsection \<open>Plate schematic\<close>

lemma del_first_column_tl:
  "\<forall>row \<in> set rows. row \<noteq> [] \<Longrightarrow> del_first_column rows = Inr (map tl rows)"
  by (induction rows) (auto split: list.splits)

lemma del_first_column_empty_row:
  "[] \<in> set rows \<Longrightarrow> del_first_column rows = Inl IndexError"
  by (induction rows) (auto split: list.splits sum.splits)

text \<open>
  The single strip, where it is defined.  Let the rows with the ignored cells
  removed be a first row and then rows that each keep at least one cell.  When
  the cell count differs from the number of images, the first row and the first
  kept cell of every other row are removed once; the result is the remaining
  cells in row order when their number is the target, and the cell-count user
  error otherwise.
\<close>

lemma get_schematic_strip:
  assumes sch: "map (\<lambda>row. map clean (filter (\<lambda>well. well \<notin> set
                  (if [] \<in> set plate_ignore then plate_ignore else plate_ignore @ [[]])) row))
                  rows = header # rest"
      and nonempty: "\<forall>row \<in> set rest. row \<noteq> []"
      and mismatch: "cell_count (header # rest) \<noteq> target_count"
  shows "get_schematic d (Some rows) target_count plate_ignore True =
           (if cell_count (map tl rest) = target_count
            then Inr (Flat (concat (map tl rest)))
            else Inl (UserError (CellCountMismatch (cell_count (map tl rest)) target_count)))"
  using mismatch del_first_column_tl [OF nonempty]
  by (simp add: get_schematic_def Let_def sch del: set_append)

lemma get_schematic_header_example:
  "get_schematic (Flat []) (Some [['''', ''1'', ''2''], [''A'', ''B'', ''T''],
     [''B'', ''T'', ''T '']]) 4 [] True = Inr (Flat [''B'', ''T'', ''T'', ''T''])"
  by code_simp

text \<open>
  Claim C7, at a schematic without headers whose second row is empty, given with
  five images: the count 4 differs from 5, the first row is removed, and
  removing the first cell of the empty row raises IndexError.  The claim asks for
  the cell-count user error there.
\<close>

theorem get_schematic_empty_row:
  "get_schematic (Flat []) (Some [[''B'', ''T''], ['''', ''''], [''T'', ''T'']]) 5 [] True =
     Inl IndexError"
  by code_simp

subsection \<open>Scorer\<close>

lemma np_index_in_range: "0 \<le> i \<Longrightarrow> i < int (length xs) \<Longrightarrow> np_index xs i = Inr (xs ! nat i)"
  by (simp add: np_index_def)

lemma getpx_in_range:
  assumes "0 \<le> y" "y < int (length img)" "0 \<le> x" "x < int (length (img ! nat y))"
  shows "getpx img y x = Inr (img ! nat y ! nat x)"
  using assms by (simp add: getpx_def np_index_in_range)

lemma collect_column_eq:
  assumes "\<forall>y \<in> set ys. 0 \<le> y \<and> y < int (length img) \<and> x < int (length (img ! nat y))"
      and "0 \<le> x"
  shows "collect_column img r cy cx x ys pts =
           Inr (pts @ map (\<lambda>y. img ! nat y ! nat x)
                        (filter (\<lambda>y. (x - cx)\<^sup>2 + (y - cy)\<^sup>2 \<le> r\<^sup>2) ys))"
  using assms
  by (induction ys arbitrary: pts) (auto simp: getpx_in_range not_less)

lemma collect_points_eq:
  assumes "\<forall>x \<in> set xs. 0 \<le> x \<and>
             (\<forall>y \<in> set ys. 0 \<le> y \<and> y < int (length img) \<and> x < int (length (img ! nat y)))"
  shows "collect_points img r cy cx ys xs pts =
           Inr (pts @ concat (map (\<lambda>x. map (\<lambda>y. img ! nat y ! nat x)
                        (filter (\<lambda>y. (x - cx)\<^sup>2 + (y - cy)\<^sup>2 \<le> r\<^sup>2) ys)) xs))"
  using assms
proof (induction xs arbitrary: pts)
  case Nil
  then show ?case by simp
next
  case (Cons x xs)
  from Cons.prems have c: "collect_column img r cy cx x ys pts =
           Inr (pts @ map (\<lambda>y. img ! nat y ! nat x)
                        (filter (\<lambda>y. (x - cx)\<^sup>2 + (y - cy)\<^sup>2 \<le> r\<^sup>2) ys))"
    by (intro collect_column_eq) auto
  from Cons.prems have "\<forall>x \<in> set xs. 0 \<le> x \<and>
             (\<forall>y \<in> set ys. 0 \<le> y \<and> y < int (length img) \<and> x < int (length (img ! nat y)))"
    by simp
  from Cons.IH [OF this] c show ?case by simp
qed

lemma filter_upto_restrict:
  fixes a b lo hi :: int
  assumes P: "\<And>y. a \<le> y \<Longrightarrow> y \<le> b \<Longrightarrow> P y \<Longrightarrow> lo \<le> y \<and> y \<le> hi"
      and "a \<le> lo" and "hi \<le> b"
  shows "filter P [a..b] = filter P [lo..hi]"
proof (rule sorted_distinct_set_unique)
  show "set (filter P [a..b]) = set (filter P [lo..hi])"
    using assms by auto
qed (simp_all add: sorted_wrt_filter)

lemma concat_map_nonempty:
  "concat (map g xs) = concat (map g (filter (\<lambda>x. g x \<noteq> []) xs))"
  by (induction xs) auto

lemma concat_map_upto_restrict:
  fixes a b lo hi :: int
  assumes g: "\<And>x. a \<le> x \<Longrightarrow> x \<le> b \<Longrightarrow> g x \<noteq> [] \<Longrightarrow> lo \<le> x \<and> x \<le> hi"
      and "a \<le> lo" and "hi \<le> b"
  shows "concat (map g [a..b]) = concat (map g [lo..hi])"
proof -
  have "filter (\<lambda>x. g x \<noteq> []) [a..b] = filter (\<lambda>x. g x \<noteq> []) [lo..hi]"
    using assms by (intro filter_upto_restrict) auto
  then show ?thesis
    using concat_map_nonempty [of g "[a..b]"] concat_map_nonempty [of g "[lo..hi]"] by simp
qed

lemma square_le_bounds:
  fixes d r :: int
  assumes "e\<^sup>2 + d\<^sup>2 \<le> r\<^sup>2" and "0 \<le> r"
  shows "- r \<le> d \<and> d \<le> r"
proof -
  have "d\<^sup>2 \<le> r\<^sup>2" using assms(1) zero_le_power2 [of e] by linarith
  then have "\<bar>d\<bar> \<le> \<bar>r\<bar>" by (simp add: abs_le_square_iff)
  with assms(2) show ?thesis by linarith
qed

lemma shape_fst: "fst (shape img) = int (length img)"
  by (simp add: shape_def)

lemma points_around_eq:
  assumes rect: "\<forall>row \<in> set img. int (length row) = snd (shape img)"
      and r: "0 \<le> r"
      and cy: "0 \<le> cy" "cy + r < fst (shape img)"
      and cx: "0 \<le> cx" "cx + r < snd (shape img)"
  shows "points_around img r cy cx = Inr (disc_pixels img r cy cx)"
proof -
  let ?h = "fst (shape img)" and ?w = "snd (shape img)"
  let ?f = "\<lambda>x y. img ! nat y ! nat x"
  let ?P = "\<lambda>x y. (x - cx)\<^sup>2 + (y - cy)\<^sup>2 \<le> r\<^sup>2"
  let ?xmin = "max (cx - r) 0" and ?ymin = "max (cy - r) 0"
  have h: "?h = int (length img)" by (rule shape_fst)
  have xmax: "min (cx + r) ?w = cx + r" and ymax: "min (cy + r) ?h = cy + r"
    using cx cy by simp_all
  have pa: "points_around img r cy cx =
      collect_points img r cy cx [?ymin..cy + r] [?xmin..cx + r] []"
    by (simp add: points_around_def Let_def case_prod_beta xmax ymax)
  have rows: "\<And>y. 0 \<le> y \<Longrightarrow> y < ?h \<Longrightarrow> int (length (img ! nat y)) = ?w"
    using rect h by (simp add: nat_less_iff)
  have inr: "\<forall>x \<in> set [?xmin..cx + r]. 0 \<le> x \<and>
      (\<forall>y \<in> set [?ymin..cy + r]. 0 \<le> y \<and> y < int (length img) \<and>
          x < int (length (img ! nat y)))"
    using cx cy h rows by auto
  have box: "points_around img r cy cx =
      Inr (concat (map (\<lambda>x. map (?f x) (filter (?P x) [?ymin..cy + r])) [?xmin..cx + r]))"
    using collect_points_eq [OF inr, of r cy cx "[]"] pa by simp
  have col: "\<And>x. filter (?P x) [0..?h - 1] = filter (?P x) [?ymin..cy + r]"
  proof -
    fix x
    show "filter (?P x) [0..?h - 1] = filter (?P x) [?ymin..cy + r]"
    proof (rule filter_upto_restrict)
      fix y assume "0 \<le> y" "y \<le> ?h - 1" "?P x y"
      with square_le_bounds [of "x - cx" "y - cy" r] r
      show "?ymin \<le> y \<and> y \<le> cy + r" by auto
    qed (use cy in auto)
  qed
  have "concat (map (\<lambda>x. map (?f x) (filter (?P x) [?ymin..cy + r])) [0..?w - 1]) =
        concat (map (\<lambda>x. map (?f x) (filter (?P x) [?ymin..cy + r])) [?xmin..cx + r])"
  proof (rule concat_map_upto_restrict)
    fix x assume x: "0 \<le> x" "x \<le> ?w - 1"
      and ne: "map (?f x) (filter (?P x) [?ymin..cy + r]) \<noteq> []"
    from ne obtain y where "?P x y" by (auto simp: filter_empty_conv)
    then have "(y - cy)\<^sup>2 + (x - cx)\<^sup>2 \<le> r\<^sup>2" by (simp add: add.commute)
    from square_le_bounds [OF this r] x show "?xmin \<le> x \<and> x \<le> cx + r" by auto
  qed (use cx in auto)
  then show ?thesis
    by (simp add: box disc_pixels_def col)
qed

lemma score_loop_eq:
  assumes rect: "\<forall>row \<in> set img. int (length row) = snd (shape img)"
      and r: "0 \<le> r"
      and coords: "\<forall>(cy, cx) \<in> set coordinates.
                     0 \<le> cy \<and> cy + r < fst (shape img) \<and> 0 \<le> cx \<and> cx + r < snd (shape img)"
  shows "score_loop img r coordinates t =
           Inr (t + sum_list (map (\<lambda>(cy, cx). np_sum_int64 (relevant_points
                                   (disc_pixels img r cy cx))) coordinates))"
  using coords
proof (induction coordinates arbitrary: t)
  case Nil
  then show ?case by simp
next
  case (Cons c cs)
  obtain cy cx where c: "c = (cy, cx)" by (cases c)
  from Cons.prems c have p: "points_around img r cy cx = Inr (disc_pixels img r cy cx)"
    by (intro points_around_eq [OF rect r]) auto
  from Cons.prems have "\<forall>(cy, cx) \<in> set cs.
       0 \<le> cy \<and> cy + r < fst (shape img) \<and> 0 \<le> cx \<and> cx + r < snd (shape img)"
    by simp
  from Cons.IH [OF this] show ?case by (simp add: c p add.assoc)
qed

text \<open>
  Claim C1, as the code has it.  Let the image be rectangular and every maximum
  lie at least \<open>radius + 1\<close> pixels before the right and bottom edges (the peak
  detector with a minimal distance of \<open>radius\<close> keeps a border of that width
  free).  Then \<open>score\<close> returns, and its result is the sum over the maxima, in
  64-bit arithmetic, of the brightest twentieth (rounded down) of the pixels at a
  distance of at most \<open>radius\<close> from the maximum: the pixels at distance exactly
  \<open>radius\<close> are collected too.
\<close>

theorem score_sums_brightest:
  assumes rect: "\<forall>row \<in> set img. int (length row) = snd (shape img)"
      and r: "0 \<le> radius"
      and coords: "\<forall>(coord_y, coord_x) \<in> set coordinates.
                     0 \<le> coord_y \<and> coord_y + radius < fst (shape img) \<and>
                     0 \<le> coord_x \<and> coord_x + radius < snd (shape img)"
  shows "score img coordinates radius =
           Inr (sum_list (map (\<lambda>(coord_y, coord_x).
                   np_sum_int64 (relevant_points (disc_pixels img radius coord_y coord_x)))
                 coordinates))"
  using score_loop_eq [OF rect r coords, of 0] by (simp add: score_def)

lemma peak_image_rect: "\<forall>row \<in> set peak_image. int (length row) = snd (shape peak_image)"
  by code_simp

lemma peak_image_shape: "shape peak_image = (17, 17)"
  by code_simp

theorem score_sums_brightest_witness:
  "score peak_image [(8, 8)] 8 =
     Inr (np_sum_int64 (relevant_points (disc_pixels peak_image 8 8 8))) \<and>
   np_sum_int64 (relevant_points (disc_pixels peak_image 8 8 8)) = 15"
proof -
  have r: "(0::int) \<le> 8" by simp
  have coords: "\<forall>(coord_y, coord_x) \<in> set [(8, 8)].
      0 \<le> coord_y \<and> coord_y + 8 < fst (shape peak_image) \<and>
      0 \<le> coord_x \<and> coord_x + 8 < snd (shape peak_image)"
    by (simp add: peak_image_shape)
  have v: "np_sum_int64 (relevant_points (disc_pixels peak_image 8 8 8)) = 15"
    by code_simp
  from score_sums_brightest [OF peak_image_rect r coords] v show ?thesis by simp
qed

lemma score_peak_image: "score peak_image [(8, 8)] 8 = Inr 15"
  by code_simp

lemma score_spec_strict_peak_image: "score_spec_strict peak_image [(8, 8)] 8 = 10"
  by code_simp

text \<open>
  Claim C1 as stated, with the pixels strictly inside the radius, fails on
  \<open>peak_image\<close>: the pixel of value 5 at distance exactly 8 is among the nine
  brightest that the code sums, so the code returns 15 and the strict reading 10.
\<close>

theorem score_strict_counterexample:
  "score peak_image [(8, 8)] 8 \<noteq> Inr (score_spec_strict peak_image [(8, 8)] 8)"
  by (simp add: score_peak_image score_spec_strict_peak_image)




subsection \<open>Background subtraction\<close>

lemma without_underflow_px:
  fixes m s :: "'a::len word"
  shows "uint (if m < s then 0 else m - s) = max 0 (uint m - uint s)"
proof (cases "m < s")
  case True
  then have "uint m < uint s" by (simp add: word_less_def)
  with True show ?thesis by simp
next
  case False
  then have "uint s \<le> uint m" by (simp add: word_less_def not_less)
  then have "uint (m - s) = uint m - uint s" by (simp add: uint_sub_lem)
  with False \<open>uint s \<le> uint m\<close> show ?thesis by simp
qed

lemma get_bit_depth_word:
  fixes img :: "'a::len word list"
  assumes ne: "img \<noteq> []" and len: "LENGTH('a) \<le> 31"
  shows "\<exists>bit_depth. get_bit_depth (map uint img) = Inr bit_depth"
proof -
  have p: "(2::int) ^ LENGTH('a) \<le> 2 ^ 31"
    using len by (intro power_increasing) auto
  have b: "uint w \<le> 2147483647" for w :: "'a word"
  proof -
    have "uint w < 2 ^ LENGTH('a)" by (rule uint_lt2p)
    from this p have "uint w < 2 ^ 31" by (rule less_le_trans)
    then show ?thesis by simp
  qed
  have "Max (set (map uint img)) \<in> set (map uint img)"
    using ne by (intro Max_in) auto
  then have "Max (set (map uint img)) \<le> 2147483647"
    using b by auto
  then show ?thesis
    using ne by (simp add: get_bit_depth_def get_bit_depth_of_max_cases)
qed

lemma without_underflow_nth:
  fixes ms ss :: "'a::len word list"
  assumes "length ss = length ms" and "i < length ms"
  shows "uint (without_underflow (zip ms ss) ! i) = max 0 (uint (ms ! i) - uint (ss ! i))"
proof -
  have "without_underflow (zip ms ss) ! i =
          (if ms ! i < ss ! i then 0 else ms ! i - ss ! i)"
    using assms by (simp add: without_underflow_def)
  then show ?thesis
    using without_underflow_px [of "ms ! i" "ss ! i"] by simp
qed

lemma length_scale_subtrahend:
  "length (scale_subtrahend c bdm t a b) = length b"
  by (simp add: scale_subtrahend_def split: prod.splits pyfloat.splits)

text \<open>
  The last line does not underflow: with scaling, pixel \<open>i\<close> of the result is
  the larger of 0 and the difference, over the integers, of the minuend's pixel
  and the pixel of the subtrahend as it stands after the scaling and the cast.
\<close>

lemma subtract_scaled_nth:
  fixes minuend_image subtrahend_image :: "'a::len word list"
  assumes len: "length subtrahend_image = length minuend_image"
      and bd: "get_bit_depth (map uint minuend_image) = Inr bit_depth"
      and i: "i < length minuend_image"
  shows "\<exists>result.
           subtract c minuend_image subtrahend_image True threshold = Inr result \<and>
           length result = length minuend_image \<and>
           uint (result ! i) =
             max 0 (uint (minuend_image ! i) -
                    uint (scale_subtrahend c (snd bit_depth) threshold
                            minuend_image subtrahend_image ! i))"
proof -
  let ?scaled = "scale_subtrahend c (snd bit_depth) threshold minuend_image subtrahend_image"
  have l: "length ?scaled = length minuend_image"
    using len by (simp add: length_scale_subtrahend)
  have s: "subtract c minuend_image subtrahend_image True threshold =
      Inr (without_underflow (zip minuend_image ?scaled))"
    using len by (simp add: subtract_def bd broadcast_def)
  show ?thesis
    using s l without_underflow_nth [OF l i] by (simp add: without_underflow_def)
qed

text \<open>
  Where the scaled pixel fits the pixel type, the result is the larger of 0 and
  the difference of the minuend's pixel and the floor of the subtrahend's pixel
  times the ratio of the masked medians.
\<close>

lemma subtract_scaled_in_range:
  fixes minuend_image subtrahend_image :: "'a::len word list"
  assumes len: "length subtrahend_image = length minuend_image"
      and bd: "get_bit_depth (map uint minuend_image) = Inr bit_depth"
      and i: "i < length minuend_image"
      and med: "masked_medians (snd bit_depth) threshold minuend_image subtrahend_image =
                  (Fin m, Fin s)"
      and s: "s \<noteq> 0"
      and lo: "0 \<le> \<lfloor>of_int (uint (subtrahend_image ! i)) * (m / s)\<rfloor>"
      and hi: "\<lfloor>of_int (uint (subtrahend_image ! i)) * (m / s)\<rfloor> < 2 ^ LENGTH('a)"
  shows "\<exists>result.
           subtract c minuend_image subtrahend_image True threshold = Inr result \<and>
           uint (result ! i) =
             max 0 (uint (minuend_image ! i) -
                    \<lfloor>of_int (uint (subtrahend_image ! i)) * (m / s)\<rfloor>)"
proof -
  have "scale_subtrahend c (snd bit_depth) threshold minuend_image subtrahend_image ! i =
      word_of_int \<lfloor>of_int (uint (subtrahend_image ! i)) * (m / s)\<rfloor>"
    using i len s by (simp add: scale_subtrahend_def med)
  then have "uint (scale_subtrahend c (snd bit_depth) threshold minuend_image
                     subtrahend_image ! i) =
      \<lfloor>of_int (uint (subtrahend_image ! i)) * (m / s)\<rfloor>"
    using lo hi by (simp add: uint_word_of_int_eq take_bit_int_eq_self)
  with subtract_scaled_nth [OF len bd i, of c threshold] show ?thesis by auto
qed

lemma subtract_unscaled:
  fixes minuend_image subtrahend_image :: "'a::len word list"
  assumes len: "length subtrahend_image = length minuend_image"
      and i: "i < length minuend_image"
  shows "\<exists>result.
           subtract c minuend_image subtrahend_image False threshold = Inr result \<and>
           length result = length minuend_image \<and>
           uint (result ! i) = max 0 (uint (minuend_image ! i) - uint (subtrahend_image ! i))"
  using len without_underflow_nth [OF len i]
  by (simp add: subtract_def broadcast_def without_underflow_def)


text \<open>
  An example on uint16: every pixel is above the threshold 327.675, the masked
  medians are 60000 and 400, the ratio is 150, and the third pixel of the
  subtrahend scales to 75000, which the cast wraps to 9464.
\<close>

lemma medians_example:
  "masked_medians 65535 (1 / 200) [60000, 60000, 60000 :: 16 word] [400, 400, 500] =
     (Fin 60000, Fin 400)"
  by code_simp

lemma bd_example: "get_bit_depth (map uint [60000, 60000, 60000 :: 16 word]) = Inr (uint16, 65535)"
  by code_simp

lemma scaled_example:
  "scale_subtrahend c 65535 (1 / 200) [60000, 60000, 60000 :: 16 word] [400, 400, 500] =
     [60000, 60000, 9464]"
  unfolding scale_subtrahend_def medians_example by simp

text \<open>
  Claim C6, at the uint16 images \<open>[60000, 60000, 60000]\<close> and
  \<open>[400, 400, 500]\<close>: the third pixel of the result is
  \<open>60000 - 9464 = 50536\<close>.  The claim asks for the larger of 0 and
  \<open>60000 - 75000\<close>, that is 0, and for a result that never wraps around: the
  subtraction itself does not underflow, but the cast of the scaled subtrahend
  wraps.
\<close>

theorem subtract_cast_wraps:
  "subtract c [60000, 60000, 60000 :: 16 word] [400, 400, 500] True (1 / 200) =
     Inr [0, 0, 50536]"
proof -
  have "subtract c [60000, 60000, 60000 :: 16 word] [400, 400, 500] True (1 / 200) =
      Inr (without_underflow (zip [60000, 60000, 60000]
             (scale_subtrahend c 65535 (1 / 200) [60000, 60000, 60000] [400, 400, 500])))"
    unfolding subtract_def bd_example by (simp add: broadcast_def)
  then show ?thesis
    unfolding scaled_example by (simp add: without_underflow_def)
qed

subsection \<open>Aspect mask\<close>

lemma keep_contours_filter:
  "keep_contours fit cs upper lower = Inr kept \<Longrightarrow>
   kept = filter (\<lambda>c. \<exists>minor major. fit c = Inr (minor, major) \<and>
                       lower < major / minor \<and> major / minor < upper) cs"
proof (induction cs arbitrary: kept)
  case Nil
  then show ?case by simp
next
  case (Cons c cs)
  then show ?case
    by (auto simp: aspect_is_between_def Let_def split: sum.splits if_splits prod.splits)
qed

lemma draw_contours_nth:
  assumes "y < length canvas" and "x < length (canvas ! y)"
  shows "draw_contours covers canvas contours colour ! y ! x =
           (if \<exists>c \<in> set contours. covers c y x then fst colour else canvas ! y ! x)"
  using assms by (simp add: draw_contours_def nth_enumerate_eq list_ex_iff)

lemma draw_contours_length:
  "length (draw_contours covers canvas contours colour) = length canvas"
  "y < length canvas \<Longrightarrow> length (draw_contours covers canvas contours colour ! y) = length (canvas ! y)"
  by (simp_all add: draw_contours_def nth_enumerate_eq)

text \<open>
  Claim C9, as the code has it.  When \<open>get_aspect_mask\<close> returns a mask, a pixel
  of the mask is 0 where a contour covers it whose ratio of the major to the
  minor axis lies strictly between \<open>target_ratio / (1 + error_bound)\<close> and
  \<open>target_ratio * (1 + error_bound)\<close>, and 255 elsewhere: exactly the contours
  with a ratio strictly in the band are drawn, filled with 0, the first component
  of the colour \<open>(0, 255, 0)\<close>, on the canvas of 255.
\<close>

theorem get_aspect_mask_pixels:
  assumes ok: "get_aspect_mask find_contours fit covers img target_ratio error_bound = Inr mask_img"
      and y: "y < length img" and x: "x < length (img ! y)"
  shows "mask_img ! y ! x =
           (if \<exists>c \<in> set (find_contours img).
                 (\<exists>minor major. fit c = Inr (minor, major) \<and>
                    target_ratio / (1 + error_bound) < major / minor \<and>
                    major / minor < target_ratio * (1 + error_bound)) \<and>
                 covers c y x
            then 0 else 255) \<and>
         mask_img ! y ! x \<in> {0, 255}"
proof -
  from ok obtain kept where
    k: "keep_contours fit (find_contours img) (target_ratio * (1 + error_bound))
          (target_ratio / (1 + error_bound)) = Inr kept"
    and m: "mask_img = draw_contours covers (map (map (\<lambda>_. 255)) img) kept (0, 255, 0)"
    by (auto simp: get_aspect_mask_def Let_def split: if_splits sum.splits)
  note kf = keep_contours_filter [OF k]
  have "mask_img ! y ! x = (if \<exists>c \<in> set kept. covers c y x then 0 else 255)"
    using y x by (simp add: m draw_contours_nth)
  then show ?thesis
    unfolding kf by auto
qed

lemma get_aspect_mask_example:
  "get_aspect_mask (\<lambda>_. [0::nat]) (\<lambda>_. Inr (2, 10)) (\<lambda>c y x. y = 1 \<and> x = 1)
     [[0, 0, 0], [0, 255, 0], [0, 0, 0]] 5 (1 / 2) =
   Inr [[255, 255, 255], [255, 0, 255], [255, 255, 255]]"
  by code_simp

lemma get_aspect_mask_filled_255_example:
  "get_aspect_mask_filled_255 (\<lambda>_. [0::nat]) (\<lambda>_. Inr (2, 10)) (\<lambda>c y x. y = 1 \<and> x = 1)
     [[0, 0, 0], [0, 255, 0], [0, 0, 0]] 5 (1 / 2) =
   Inr [[255, 255, 255], [255, 255, 255], [255, 255, 255]]"
  by code_simp

text \<open>
  An instance: one contour with axes 2 and 10 (ratio 5, inside the band from
  10/3 to 15/2 of the defaults) covering the middle pixel of a 3 by 3 image.
\<close>

theorem get_aspect_mask_pixels_witness:
  "get_aspect_mask (\<lambda>_. [0::nat]) (\<lambda>_. Inr (2, 10)) (\<lambda>c y x. y = 1 \<and> x = 1)
     [[0, 0, 0], [0, 255, 0], [0, 0, 0]] 5 (1 / 2) =
     Inr [[255, 255, 255], [255, 0, 255], [255, 255, 255]] \<and>
   [[255, 255, 255], [255, 0, 255], [255, 255, 255 :: nat]] ! 1 ! 1 = 0"
proof -
  have y: "1 < length [[0, 0, 0], [0, 255, 0], [0, 0, 0 :: nat]]" by simp
  have x: "1 < length ([[0, 0, 0], [0, 255, 0], [0, 0, 0 :: nat]] ! 1)" by simp
  from get_aspect_mask_pixels [OF get_aspect_mask_example y x]
  show ?thesis using get_aspect_mask_example by simp
qed

text \<open>
  Claim C9 as stated, with the kept contours at 255, fails on the same instance:
  the code's mask has 0 at the pixel of the kept contour, and the rendering with
  255 has 255 there.
\<close>

theorem get_aspect_mask_counterexample:
  "get_aspect_mask (\<lambda>_. [0::nat]) (\<lambda>_. Inr (2, 10)) (\<lambda>c y x. y = 1 \<and> x = 1)
     [[0, 0, 0], [0, 255, 0], [0, 0, 0]] 5 (1 / 2) \<noteq>
   get_aspect_mask_filled_255 (\<lambda>_. [0::nat]) (\<lambda>_. Inr (2, 10)) (\<lambda>c y x. y = 1 \<and> x = 1)
     [[0, 0, 0], [0, 255, 0], [0, 0, 0]] 5 (1 / 2)"
  unfolding get_aspect_mask_example get_aspect_mask_filled_255_example by simp

subsection \<open>Scorer: the 64-bit sum and the edges of the image\<close>

text \<open>
  The 64-bit sum is the integer sum whenever that lies in the signed 64-bit
  range, as it does for the nine brightest of at most 289 pixels of 16 bits.
\<close>

lemma np_sum_int64_of_int: "np_sum_int64 ps = word_of_int (sum_list ps)"
  by (induction ps) (simp_all add: np_sum_int64_def)

lemma np_sum_int64_exact:
  assumes "- (2 ^ 63) \<le> sum_list ps" and "sum_list ps < 2 ^ 63"
  shows "sint (np_sum_int64 ps) = sum_list ps"
  using assms by (simp add: np_sum_int64_of_int sint_sbintrunc' signed_take_bit_int_eq_self)

lemma np_index_error: "np_index xs i = Inl e \<Longrightarrow> e = IndexError"
  by (auto simp: np_index_def split: if_splits)

lemma getpx_error: "getpx img y x = Inl e \<Longrightarrow> e = IndexError"
  by (auto simp: getpx_def split: sum.splits dest: np_index_error)

lemma collect_column_error:
  "collect_column img r cy cx x ys pts = Inl e \<Longrightarrow> e = IndexError"
  by (induction ys arbitrary: pts) (auto split: if_splits sum.splits dest: getpx_error)

lemma collect_points_error:
  "collect_points img r cy cx ys xs pts = Inl e \<Longrightarrow> e = IndexError"
  by (induction xs arbitrary: pts) (auto split: sum.splits dest: collect_column_error)

lemma collect_column_fails:
  assumes "y \<in> set ys" and "(x - cx)\<^sup>2 + (y - cy)\<^sup>2 \<le> r\<^sup>2" and "getpx img y x = Inl e"
  shows "collect_column img r cy cx x ys pts = Inl IndexError"
  using assms
proof (induction ys arbitrary: pts)
  case Nil
  then show ?case by simp
next
  case (Cons a ys)
  show ?case
  proof (cases "collect_column img r cy cx x (a # ys) pts")
    case (Inl e')
    then show ?thesis using collect_column_error by blast
  next
    case (Inr ps)
    with Cons show ?thesis
      by (auto split: if_splits sum.splits)
  qed
qed

lemma collect_points_fails:
  assumes "x \<in> set xs" and "y \<in> set ys" and "(x - cx)\<^sup>2 + (y - cy)\<^sup>2 \<le> r\<^sup>2"
      and "getpx img y x = Inl e"
  shows "collect_points img r cy cx ys xs pts = Inl IndexError"
  using assms
proof (induction xs arbitrary: pts)
  case Nil
  then show ?case by simp
next
  case (Cons a xs)
  show ?case
  proof (cases "collect_points img r cy cx ys (a # xs) pts")
    case (Inl e')
    then show ?thesis using collect_points_error by blast
  next
    case (Inr ps)
    with Cons collect_column_fails [of y ys a cx cy r img e] show ?thesis
      by (auto split: sum.splits)
  qed
qed

text \<open>
  The hypothesis on the maxima in the theorem for claim C1 cannot be dropped.
  The bounding box ends at \<open>min (coord_x + radius) width\<close>, and the ranges
  include their upper end, so for a maximum inside the image within \<open>radius\<close>
  of the right or bottom edge the loops reach the column \<open>width\<close> or the row
  \<open>height\<close>, and reading that pixel raises IndexError.
\<close>

lemma points_around_index_error:
  assumes rect: "\<forall>row \<in> set img. int (length row) = snd (shape img)"
      and r: "0 \<le> r"
      and cy: "0 \<le> cy" "cy < fst (shape img)"
      and cx: "0 \<le> cx" "cx < snd (shape img)"
      and edge: "snd (shape img) \<le> cx + r \<or> fst (shape img) \<le> cy + r"
  shows "points_around img r cy cx = Inl IndexError"
proof -
  let ?h = "fst (shape img)" and ?w = "snd (shape img)"
  let ?xs = "[max (cx - r) 0..min (cx + r) ?w]" and ?ys = "[max (cy - r) 0..min (cy + r) ?h]"
  have h: "?h = int (length img)" by (simp add: shape_def)
  have pa: "points_around img r cy cx = collect_points img r cy cx ?ys ?xs []"
    by (simp add: points_around_def Let_def case_prod_beta)
  from edge show ?thesis
  proof
    assume e: "?w \<le> cx + r"
    have x: "?w \<in> set ?xs" using e cx r by auto
    have y: "cy \<in> set ?ys" using cy r by auto
    have "(?w - cx)\<^sup>2 \<le> r\<^sup>2" using e cx by (intro power_mono) auto
    then have P: "(?w - cx)\<^sup>2 + (cy - cy)\<^sup>2 \<le> r\<^sup>2" by simp
    have "img ! nat cy \<in> set img" using cy h by (simp add: nat_less_iff)
    with rect have "int (length (img ! nat cy)) = ?w" by blast
    then have g: "getpx img cy ?w = Inl IndexError"
      using cy cx h by (simp add: getpx_def np_index_def)
    from collect_points_fails [OF x y P g] pa show ?thesis by simp
  next
    assume e: "?h \<le> cy + r"
    have x: "cx \<in> set ?xs" using cx r by auto
    have y: "?h \<in> set ?ys" using e cy r by auto
    have "(?h - cy)\<^sup>2 \<le> r\<^sup>2" using e cy by (intro power_mono) auto
    then have P: "(cx - cx)\<^sup>2 + (?h - cy)\<^sup>2 \<le> r\<^sup>2" by simp
    have g: "getpx img ?h cx = Inl IndexError"
      using cy h by (simp add: getpx_def np_index_def)
    from collect_points_fails [OF x y P g] pa show ?thesis by simp
  qed
qed

text \<open>
  With the default radius 8 the case of claim C10 does not arise in a call that
  returns: around a maximum inside the image either the loops run past an edge
  and raise IndexError, or the disc holds the 5 by 5 square below and right of
  the maximum, that is, at least 25 pixels.
\<close>

lemma length_disc_pixels:
  "length (disc_pixels img r cy cx) =
     sum_list (map (\<lambda>x. length (filter (\<lambda>y. (x - cx)\<^sup>2 + (y - cy)\<^sup>2 \<le> r\<^sup>2)
                                [0..fst (shape img) - 1]))
                [0..snd (shape img) - 1])"
  by (simp add: disc_pixels_def length_concat comp_def)

lemma filter_upto_window:
  fixes a b lo hi :: int
  assumes "a \<le> lo" and "lo \<le> hi" and "hi \<le> b"
      and "\<And>y. lo \<le> y \<Longrightarrow> y \<le> hi \<Longrightarrow> P y"
  shows "nat (hi - lo + 1) \<le> length (filter P [a..b])"
proof -
  have "[a..b] = [a..lo - 1] @ [lo..b]"
    using assms by (intro upto_split1) auto
  also have "[lo..b] = [lo..hi] @ [hi + 1..b]"
    using assms by (intro upto_split2) auto
  finally have s: "[a..b] = [a..lo - 1] @ [lo..hi] @ [hi + 1..b]" .
  have "filter P [lo..hi] = [lo..hi]"
    using assms(4) by (simp add: filter_id_conv)
  then have "length (filter P [lo..hi]) = nat (hi - lo + 1)" by simp
  then show ?thesis unfolding s by simp
qed

lemma sum_list_upto_window:
  fixes a b lo hi :: int and g :: "int \<Rightarrow> nat"
  assumes "a \<le> lo" and "lo \<le> hi" and "hi \<le> b"
      and "\<And>x. lo \<le> x \<Longrightarrow> x \<le> hi \<Longrightarrow> k \<le> g x"
  shows "nat (hi - lo + 1) * k \<le> sum_list (map g [a..b])"
proof -
  have "[a..b] = [a..lo - 1] @ [lo..b]"
    using assms by (intro upto_split1) auto
  also have "[lo..b] = [lo..hi] @ [hi + 1..b]"
    using assms by (intro upto_split2) auto
  finally have s: "[a..b] = [a..lo - 1] @ [lo..hi] @ [hi + 1..b]" .
  have "sum_list (map (\<lambda>_. k) [lo..hi]) \<le> sum_list (map g [lo..hi])"
    using assms(4) by (intro sum_list_mono) auto
  then have "nat (hi - lo + 1) * k \<le> sum_list (map g [lo..hi])"
    by (simp add: sum_list_triv)
  then show ?thesis unfolding s by simp
qed

lemma disc_pixels_at_least_25:
  assumes cy: "0 \<le> cy" "cy + 8 < fst (shape img)"
      and cx: "0 \<le> cx" "cx + 8 < snd (shape img)"
  shows "25 \<le> length (disc_pixels img 8 cy cx)"
proof -
  let ?P = "\<lambda>x y. (x - cx)\<^sup>2 + (y - cy)\<^sup>2 \<le> (8::int)\<^sup>2"
  have col: "5 \<le> length (filter (?P x) [0..fst (shape img) - 1])"
    if x: "cx \<le> x" "x \<le> cx + 4" for x
  proof -
    have "nat (cy + 4 - cy + 1) \<le> length (filter (?P x) [0..fst (shape img) - 1])"
    proof (rule filter_upto_window)
      fix y assume y: "cy \<le> y" "y \<le> cy + 4"
      have "(x - cx)\<^sup>2 \<le> 4\<^sup>2" using x by (intro power_mono) auto
      moreover have "(y - cy)\<^sup>2 \<le> 4\<^sup>2" using y by (intro power_mono) auto
      ultimately show "?P x y" by simp
    qed (use cy in auto)
    then show ?thesis by simp
  qed
  have "nat (cx + 4 - cx + 1) * 5 \<le>
      sum_list (map (\<lambda>x. length (filter (?P x) [0..fst (shape img) - 1]))
                  [0..snd (shape img) - 1])"
    by (rule sum_list_upto_window) (use cx col in auto)
  then show ?thesis by (simp add: length_disc_pixels)
qed

lemma points_around_radius_8:
  assumes rect: "\<forall>row \<in> set img. int (length row) = snd (shape img)"
      and cy: "0 \<le> cy" "cy < fst (shape img)"
      and cx: "0 \<le> cx" "cx < snd (shape img)"
      and ok: "points_around img 8 cy cx = Inr points"
  shows "20 \<le> length points"
proof (cases "snd (shape img) \<le> cx + 8 \<or> fst (shape img) \<le> cy + 8")
  case True
  from points_around_index_error [OF rect _ cy cx True] ok show ?thesis by simp
next
  case False
  then have "points_around img 8 cy cx = Inr (disc_pixels img 8 cy cx)"
    using cy cx by (intro points_around_eq [OF rect]) auto
  with ok have "points = disc_pixels img 8 cy cx" by simp
  with disc_pixels_at_least_25 [of cy img cx] False cy cx show ?thesis by simp
qed

end
